theory Spec2Isabelle
  imports Main
begin

section \<open>The FastAPI application class of \<^verbatim>\<open>applications.py\<close>\<close>

text \<open>
  The class \<^verbatim>\<open>FastAPI\<close> registers routes by appending references to route objects to
  its \<^verbatim>\<open>routes\<close> list, and \<^verbatim>\<open>include_router\<close> assigns to the \<^verbatim>\<open>path\<close> attribute of
  route objects that the router goes on holding. Python lists hold references, so the
  embedding has an explicit store: route objects live at addresses, list objects live at
  addresses of their own, and a list is a sequence of addresses of route objects.
  Values of Python's type \<^verbatim>\<open>Any\<close> (endpoints, response models, keyword arguments) are
  the type parameter \<open>'a\<close>.
\<close>

subsection \<open>Data model\<close>

type_synonym ref = nat

type_synonym lref = nat

text \<open>
  Modelled from the spec: the class \<^verbatim>\<open>APIRoute\<close> of \<^verbatim>\<open>fastapi.routing\<close> is
  not among the sources. An \<open>APIRoute\<close> object holds the arguments its constructor
  was called with (\<^verbatim>\<open>path\<close>, \<^verbatim>\<open>endpoint\<close>, \<^verbatim>\<open>methods\<close>, \<^verbatim>\<open>response_model\<close> and
  the remaining keyword arguments), and its attribute \<^verbatim>\<open>path\<close> can be assigned.
  \<open>BaseRoute\<close> stands for every route object that is not an instance of
  \<^verbatim>\<open>APIRoute\<close>: \<^verbatim>\<open>isinstance(route, APIRoute)\<close> is the discriminator \<open>is_APIRoute\<close>.
\<close>

datatype 'a route =
    APIRoute (route_path: string) (route_endpoint: 'a) (route_methods: "string list")
      (route_response_model: 'a) (route_kwargs: "(string \<times> 'a) list")
  | BaseRoute (route_path: string) (route_detail: 'a)

text \<open>The assignment \<^verbatim>\<open>route.path = v\<close>.\<close>

fun set_path :: "string \<Rightarrow> 'a route \<Rightarrow> 'a route" where
  "set_path v (APIRoute p e ms rm kw) = APIRoute v e ms rm kw"
| "set_path v (BaseRoute p d) = BaseRoute v d"

text \<open>
  The store: \<open>objs\<close> gives the route object at an address, \<open>lsts\<close> the contents of
  the list object at an address, and \<open>next_ref\<close> is the first address at which no route
  object has been created yet.
\<close>

record 'a state =
  objs :: "ref \<Rightarrow> 'a route"
  lsts :: "lref \<Rightarrow> ref list"
  next_ref :: ref

text \<open>
  Modelled from the spec: the base class \<^verbatim>\<open>Starlette\<close> and the class \<^verbatim>\<open>APIRouter\<close>
  are not among the sources. Of an application object the methods use the attribute
  \<^verbatim>\<open>self.routes\<close> only, and of a router \<^verbatim>\<open>router.routes\<close> only; either is a
  reference to a list object.
\<close>

record FastAPI =
  routes :: lref

record APIRouter =
  router_routes :: lref

text \<open>
  Every address held by a list is the address of a route object that has been created:
  Python has no dangling references.
\<close>

definition well_formed :: "'a state \<Rightarrow> bool" where
  "well_formed s \<longleftrightarrow> (\<forall>l. \<forall>a \<in> set (lsts s l). a < next_ref s)"

text \<open>The dictionaries that \<^verbatim>\<open>openapi\<close> returns: strings and nested dictionaries.\<close>

datatype json = Str string | Dict "(string \<times> json) list"

subsection \<open>The constructor\<close>








subsection \<open>\<^verbatim>\<open>openapi\<close>\<close>

definition openapi :: "FastAPI \<Rightarrow> 'a state \<Rightarrow> json" where
  "openapi self s =
    (if lsts s (routes self) = [] then
       Dict [(''openapi'', Str ''3.1.0''),
             (''info'', Dict [(''title'', Str ''FastAPI''), (''version'', Str ''0.1.0'')]),
             (''paths'', Dict [])]
     else
       Dict [(''openapi'', Str ''3.1.0''),
             (''info'', Dict [(''title'', Str ''FastAPI''), (''version'', Str ''0.1.0'')]),
             (''paths'', Dict [])])"

subsection \<open>\<^verbatim>\<open>add_api_route\<close>\<close>

text \<open>
  \<^verbatim>\<open>methods or ["GET"]\<close>: \<^verbatim>\<open>None\<close> and the empty list are false, and then the value
  is the second operand.
\<close>

definition methods_or :: "string list option \<Rightarrow> string list \<Rightarrow> string list" where
  "methods_or methods dflt =
    (case methods of None \<Rightarrow> dflt | Some ms \<Rightarrow> if ms = [] then dflt else ms)"

text \<open>
  The route object is created at the address \<open>next_ref s\<close>, and that address is appended
  to the list \<^verbatim>\<open>self.routes\<close>.
\<close>

definition add_api_route ::
  "FastAPI \<Rightarrow> string \<Rightarrow> 'a \<Rightarrow> string list option \<Rightarrow> 'a \<Rightarrow> (string \<times> 'a) list
   \<Rightarrow> 'a state \<Rightarrow> 'a state" where
  "add_api_route self path endpoint methods response_model kwargs s =
    (let route = next_ref s;
         s1 = s\<lparr>objs := (objs s)(route :=
                  APIRoute path endpoint (methods_or methods [''GET'']) response_model kwargs),
                next_ref := Suc (next_ref s)\<rparr>
     in s1\<lparr>lsts := (lsts s1)(routes self := lsts s1 (routes self) @ [route])\<rparr>)"

subsection \<open>\<^verbatim>\<open>include_router\<close>\<close>

text \<open>The body of the loop, for the route object at address \<open>route\<close>.\<close>

definition include_router_body :: "FastAPI \<Rightarrow> string \<Rightarrow> ref \<Rightarrow> 'a state \<Rightarrow> 'a state" where
  "include_router_body self prefix route s =
    (let s1 = (if is_APIRoute (objs s route)
               then s\<lparr>objs := (objs s)(route :=
                        set_path (prefix @ route_path (objs s route)) (objs s route))\<rparr>
               else s)
     in s1\<lparr>lsts := (lsts s1)(routes self := lsts s1 (routes self) @ [route])\<rparr>)"

text \<open>
  \<^verbatim>\<open>for route in router.routes\<close> evaluates \<^verbatim>\<open>router.routes\<close> once, to the list object
  at address \<open>it\<close>, and its iterator keeps an index \<open>i\<close> into that list object: every
  round compares \<open>i\<close> with the length the list has then. The loop need not end, so
  not returning is the value \<open>None\<close>.
\<close>

partial_function (option) include_router_loop ::
  "FastAPI \<Rightarrow> lref \<Rightarrow> string \<Rightarrow> nat \<Rightarrow> 'a state \<Rightarrow> 'a state option" where
  "include_router_loop self it prefix i s =
    (if i < length (lsts s it)
     then include_router_loop self it prefix (Suc i)
            (include_router_body self prefix (lsts s it ! i) s)
     else Some s)"

definition include_router ::
  "FastAPI \<Rightarrow> APIRouter \<Rightarrow> string \<Rightarrow> (string \<times> 'a) list \<Rightarrow> 'a state \<Rightarrow> 'a state option" where
  "include_router self router prefix kwargs s =
    include_router_loop self (router_routes router) prefix 0 s"

subsection \<open>What a completed loop has done\<close>

text \<open>
  \<open>prefixed n prefix r\<close> is the route object \<open>r\<close> after \<open>n\<close> rounds of the loop body
  have met it: an \<open>APIRoute\<close> has had \<open>prefix\<close> put in front of its path \<open>n\<close> times,
  any other route object is as it was.
\<close>

definition prefixed :: "nat \<Rightarrow> string \<Rightarrow> 'a route \<Rightarrow> 'a route" where
  "prefixed n prefix r =
    (if is_APIRoute r then set_path (concat (replicate n prefix) @ route_path r) r else r)"

text \<open>
  \<open>included self prefix rs s\<close> is the store after the loop body has run for the
  addresses \<open>rs\<close>, one after the other, starting in \<open>s\<close>.
\<close>

definition included :: "FastAPI \<Rightarrow> string \<Rightarrow> ref list \<Rightarrow> 'a state \<Rightarrow> 'a state" where
  "included self prefix rs s =
    s\<lparr>objs := (\<lambda>a. prefixed (count_list rs a) prefix (objs s a)),
      lsts := (lsts s)(routes self := lsts s (routes self) @ rs)\<rparr>"

text \<open>The route object that the last entry of \<^verbatim>\<open>self.routes\<close> refers to.\<close>

definition last_route :: "FastAPI \<Rightarrow> 'a state \<Rightarrow> 'a route" where
  "last_route self s = objs s (last (lsts s (routes self)))"

subsection \<open>Example stores\<close>

text \<open>
  An application whose list of routes is the list object at address 0 and a router whose
  list is the one at address 1. Three route objects exist: two \<^verbatim>\<open>APIRoute\<close>s, at
  addresses 0 and 2, and a route of another class at address 1. Endpoints and other
  values of type \<^verbatim>\<open>Any\<close> are numbers here.
\<close>

definition ex_app :: FastAPI where
  "ex_app = \<lparr>routes = 0\<rparr>"

definition ex_router :: APIRouter where
  "ex_router = \<lparr>router_routes = 1\<rparr>"

definition ex_objs :: "ref \<Rightarrow> nat route" where
  "ex_objs = (\<lambda>_. BaseRoute [] 0)
     (0 := APIRoute ''/items'' 1 [''GET''] 0 [],
      1 := BaseRoute ''/static'' 2,
      2 := APIRoute ''/users'' 3 [''POST''] 0 [])"

text \<open>The application holds route 0; the router holds routes 1 and 2, each once.\<close>

definition ex_state :: "nat state" where
  "ex_state = \<lparr>objs = ex_objs, lsts = (\<lambda>_. [])(0 := [0], 1 := [1, 2]), next_ref = 3\<rparr>"

text \<open>The router's list holds the same \<^verbatim>\<open>APIRoute\<close> object, the one at address 2, twice.\<close>

definition twice_state :: "nat state" where
  "twice_state = \<lparr>objs = ex_objs, lsts = (\<lambda>_. [])(0 := [0], 1 := [2, 2]), next_ref = 3\<rparr>"

text \<open>The router's list holds the object at address 2 at its first and third place.\<close>

definition repeat_state :: "nat state" where
  "repeat_state = \<lparr>objs = ex_objs, lsts = (\<lambda>_. [])(0 := [], 1 := [2, 1, 2]), next_ref = 3\<rparr>"

subsection \<open>Example calls of the constructor\<close>





section \<open>Properties\<close>

subsection \<open>The loop body\<close>

lemma concat_replicate_commute:
  "concat (replicate n p) @ p = p @ concat (replicate n p)"
  by (induction n) simp_all

lemma prefixed_0 [simp]: "prefixed 0 prefix r = r"
  by (cases r) (simp_all add: prefixed_def)

lemma prefixed_Suc:
  "prefixed n prefix (prefixed (Suc 0) prefix r) = prefixed (Suc n) prefix r"
  by (cases r) (simp_all add: prefixed_def concat_replicate_commute)

lemma objs_body:
  "objs (include_router_body self prefix route s) =
   (objs s)(route := prefixed (Suc 0) prefix (objs s route))"
  by (auto simp: include_router_body_def prefixed_def Let_def)

lemma lsts_body:
  "lsts (include_router_body self prefix route s) =
   (lsts s)(routes self := lsts s (routes self) @ [route])"
  by (simp add: include_router_body_def Let_def)

lemma next_ref_body:
  "next_ref (include_router_body self prefix route s) = next_ref s"
  by (simp add: include_router_body_def Let_def)

lemma included_Nil: "included self prefix [] s = s"
  by (simp add: included_def)

lemma included_Cons:
  "included self prefix rs (include_router_body self prefix r s) =
   included self prefix (r # rs) s"
proof (rule state.equality)
  show "objs (included self prefix rs (include_router_body self prefix r s)) =
        objs (included self prefix (r # rs) s)"
    by (auto simp: included_def objs_body fun_eq_iff prefixed_Suc)
  show "lsts (included self prefix rs (include_router_body self prefix r s)) =
        lsts (included self prefix (r # rs) s)"
    by (simp add: included_def lsts_body)
  show "next_ref (included self prefix rs (include_router_body self prefix r s)) =
        next_ref (included self prefix (r # rs) s)"
    by (simp add: included_def next_ref_body)
  show "state.more (included self prefix rs (include_router_body self prefix r s)) =
        state.more (included self prefix (r # rs) s)"
    by (simp add: included_def include_router_body_def Let_def)
qed

subsection \<open>The loop\<close>

text \<open>
  When the router's list is not the list the loop appends to, the loop ends after the
  rounds for the entries from index \<open>i\<close> on. The induction is on the number of entries
  left.
\<close>

lemma loop_returns:
  "it \<noteq> routes self \<Longrightarrow> n = length (lsts s it) - i \<Longrightarrow>
   include_router_loop self it prefix i s = Some (included self prefix (drop i (lsts s it)) s)"
proof (induction n arbitrary: i s)
  case 0
  then show ?case
    by (subst include_router_loop.simps) (simp add: included_Nil)
next
  case (Suc n)
  let ?s = "include_router_body self prefix (lsts s it ! i) s"
  have same: "lsts ?s it = lsts s it"
    using Suc.prems by (simp add: lsts_body)
  have less: "i < length (lsts s it)"
    using Suc.prems by simp
  have "include_router_loop self it prefix i s = include_router_loop self it prefix (Suc i) ?s"
    using less by (subst include_router_loop.simps) simp
  also have "\<dots> = Some (included self prefix (drop (Suc i) (lsts s it)) ?s)"
    using Suc.IH[of ?s "Suc i"] Suc.prems same by simp
  also have "\<dots> = Some (included self prefix (drop i (lsts s it)) s)"
    using less by (simp add: included_Cons Cons_nth_drop_Suc)
  finally show ?case .
qed

text \<open>
  When the router's list is the application's own list, every round appends to the list
  that is being iterated over, and the index never reaches its end.
\<close>

lemma loop_never_returns:
  assumes "include_router_loop self it prefix i s = Some s'"
  shows "it = routes self \<longrightarrow> \<not> i < length (lsts s it)"
  using assms
proof (rule include_router_loop.raw_induct[rotated])
  fix loop self it prefix i and s s' :: "'a state"
  assume IH: "\<And>self it prefix i s s'. loop self it prefix i s = Some s' \<Longrightarrow>
      it = routes self \<longrightarrow> \<not> i < length (lsts s it)"
    and step: "(if i < length (lsts s it)
      then loop self it prefix (Suc i) (include_router_body self prefix (lsts s it ! i) s)
      else Some s) = Some s'"
  show "it = routes self \<longrightarrow> \<not> i < length (lsts s it)"
  proof (intro impI notI)
    assume a: "it = routes self" and b: "i < length (lsts s it)"
    let ?s = "include_router_body self prefix (lsts s it ! i) s"
    from step b have "loop self it prefix (Suc i) ?s = Some s'"
      by simp
    from IH[OF this] a have "\<not> Suc i < length (lsts ?s it)"
      by simp
    with a b show False
      by (simp add: lsts_body)
  qed
qed

text \<open>The result of \<^verbatim>\<open>include_router\<close>, for every router and every store.\<close>

lemma include_router_result:
  "include_router self router prefix kwargs s =
    (if router_routes router = routes self \<and> lsts s (routes self) \<noteq> []
     then None
     else Some (included self prefix (lsts s (router_routes router)) s))"
proof (cases "router_routes router = routes self")
  case False
  then show ?thesis
    using loop_returns[of "router_routes router" self _ s 0 prefix]
    by (simp add: include_router_def)
next
  case True
  show ?thesis
  proof (cases "lsts s (routes self) = []")
    case True
    with \<open>router_routes router = routes self\<close> show ?thesis
      by (simp add: include_router_def include_router_loop.simps[of _ _ _ 0] included_Nil)
  next
    case False
    with \<open>router_routes router = routes self\<close> loop_never_returns[of self "routes self" prefix 0 s]
    show ?thesis
      by (cases "include_router_loop self (routes self) prefix 0 s")
         (simp_all add: include_router_def)
  qed
qed

lemma include_router_self_never_returns:
  "router_routes router = routes self \<Longrightarrow> lsts s (routes self) \<noteq> [] \<Longrightarrow>
   include_router self router prefix kwargs s = None"
  by (simp add: include_router_result)

lemma include_router_Some:
  "include_router self router prefix kwargs s = Some s' \<Longrightarrow>
   s' = included self prefix (lsts s (router_routes router)) s"
  by (simp add: include_router_result split: if_splits)

lemma include_router_returns:
  "router_routes router \<noteq> routes self \<Longrightarrow>
   include_router self router prefix kwargs s =
   Some (included self prefix (lsts s (router_routes router)) s)"
  by (simp add: include_router_result)

subsection \<open>The store after a completed loop\<close>

lemma objs_included:
  "objs (included self prefix rs s) a = prefixed (count_list rs a) prefix (objs s a)"
  by (simp add: included_def)

lemma lsts_included:
  "lsts (included self prefix rs s) l =
   (if l = routes self then lsts s (routes self) @ rs else lsts s l)"
  by (simp add: included_def)

lemma route_path_prefixed:
  "is_APIRoute r \<Longrightarrow> route_path (prefixed n prefix r) = concat (replicate n prefix) @ route_path r"
  by (cases r) (simp_all add: prefixed_def)

lemma prefixed_other: "\<not> is_APIRoute r \<Longrightarrow> prefixed n prefix r = r"
  by (simp add: prefixed_def)

lemma is_APIRoute_prefixed [simp]: "is_APIRoute (prefixed n prefix r) = is_APIRoute r"
  by (cases r) (simp_all add: prefixed_def)

lemma prefixed_once:
  "is_APIRoute r \<Longrightarrow> prefixed (Suc 0) prefix r = set_path (prefix @ route_path r) r"
  by (simp add: prefixed_def)

lemma route_path_prefixed_twice:
  "is_APIRoute r \<Longrightarrow>
   route_path (prefixed (Suc 0) prefix (prefixed (Suc 0) prefix r)) = prefix @ prefix @ route_path r"
  by (simp add: route_path_prefixed)

subsection \<open>Well-formed stores stay well-formed\<close>

lemma well_formed_add_api_route:
  "well_formed s \<Longrightarrow> well_formed (add_api_route self path endpoint methods response_model kwargs s)"
  by (auto simp: well_formed_def add_api_route_def Let_def less_Suc_eq)

lemma well_formed_include_router:
  assumes "well_formed s" and "include_router self router prefix kwargs s = Some s'"
  shows "well_formed s'"
proof -
  from assms(2) have s': "s' = included self prefix (lsts s (router_routes router)) s"
    by (rule include_router_Some)
  show ?thesis
    unfolding well_formed_def
  proof (intro allI ballI)
    fix l a
    assume "a \<in> set (lsts s' l)"
    then have "a \<in> set (lsts s (routes self)) \<or> a \<in> set (lsts s (router_routes router))
        \<or> a \<in> set (lsts s l)"
      by (auto simp: s' lsts_included split: if_splits)
    with assms(1) have "a < next_ref s"
      by (auto simp: well_formed_def)
    then show "a < next_ref s'"
      by (simp add: s' included_def)
  qed
qed

subsection \<open>The keywords of the call of the base constructor\<close>













section \<open>The claims\<close>

subsection \<open>\<^verbatim>\<open>openapi\<close>\<close>

text \<open>
  C1. For every application and every store, whether the list of routes is empty or
  not, \<^verbatim>\<open>openapi()\<close> returns the dictionary with the entries \<^verbatim>\<open>"openapi": "3.1.0"\<close>,
  \<^verbatim>\<open>"info": {"title": "FastAPI", "version": "0.1.0"}\<close> and \<^verbatim>\<open>"paths": {}\<close>;
  so the result is the same for any two applications and stores, whatever routes they
  hold.
\<close>

theorem openapi_is_stub:
  "openapi self s =
     Dict [(''openapi'', Str ''3.1.0''),
           (''info'', Dict [(''title'', Str ''FastAPI''), (''version'', Str ''0.1.0'')]),
           (''paths'', Dict [])]
   \<and> openapi self s = openapi self' s'"
  by (simp add: openapi_def)

subsection \<open>\<^verbatim>\<open>add_api_route\<close>\<close>

text \<open>
  C2. After \<^verbatim>\<open>add_api_route\<close> the list \<^verbatim>\<open>self.routes\<close> is the list before with one
  entry appended at the end, the address of the route object the call created, which is
  an \<^verbatim>\<open>APIRoute\<close>; every route object at another address is as it was, every other
  list is as it was, and in a well-formed store no list held the new address before.
\<close>

theorem add_api_route_appends_one:
  "lsts (add_api_route self path endpoint methods response_model kwargs s) (routes self) =
     lsts s (routes self) @ [next_ref s]
   \<and> objs (add_api_route self path endpoint methods response_model kwargs s) (next_ref s) =
       APIRoute path endpoint (methods_or methods [''GET'']) response_model kwargs
   \<and> (\<forall>a. a \<noteq> next_ref s \<longrightarrow>
        objs (add_api_route self path endpoint methods response_model kwargs s) a = objs s a)
   \<and> (\<forall>l. l \<noteq> routes self \<longrightarrow>
        lsts (add_api_route self path endpoint methods response_model kwargs s) l = lsts s l)
   \<and> (well_formed s \<longrightarrow> (\<forall>l. next_ref s \<notin> set (lsts s l)))"
  by (auto simp: add_api_route_def Let_def well_formed_def)

theorem add_api_route_appends_one_witness:
  "lsts (add_api_route ex_app ''/new'' 7 None 0 [] ex_state) 0 = [0, 3]
   \<and> objs (add_api_route ex_app ''/new'' 7 None 0 [] ex_state) 3 =
       APIRoute ''/new'' 7 [''GET''] 0 []
   \<and> objs (add_api_route ex_app ''/new'' 7 None 0 [] ex_state) 2 =
       APIRoute ''/users'' 3 [''POST''] 0 []
   \<and> lsts (add_api_route ex_app ''/new'' 7 None 0 [] ex_state) 1 = [1, 2]
   \<and> well_formed ex_state \<and> 3 \<notin> set (lsts ex_state 1)"
proof -
  have wf: "well_formed ex_state"
    by (simp add: well_formed_def ex_state_def)
  show ?thesis
    using add_api_route_appends_one[of ex_app "''/new''" 7 None 0 "[]" ex_state] wf
    by (simp add: ex_app_def ex_state_def ex_objs_def methods_or_def)
qed

subsection \<open>\<^verbatim>\<open>include_router\<close>: what is appended, and the paths\<close>

text \<open>
  C3, as the specification states it, fails where the router's list holds the same
  \<^verbatim>\<open>APIRoute\<close> object more than once: the loop body runs once for each entry, so the
  object's path gets the prefix once for each entry. With the object at address 2 held
  twice and the prefix \<^verbatim>\<open>/v1\<close>, the path \<^verbatim>\<open>/users\<close> becomes \<^verbatim>\<open>/v1/v1/users\<close>, which
  is not the prefix followed by the previous path.
\<close>

theorem include_router_repeated_entry_counterexample:
  "include_router ex_app ex_router ''/v1'' [] twice_state \<noteq> None
   \<and> 2 \<in> set (lsts twice_state (router_routes ex_router))
   \<and> is_APIRoute (objs twice_state 2)
   \<and> route_path (objs twice_state 2) = ''/users''
   \<and> route_path (objs (the (include_router ex_app ex_router ''/v1'' [] twice_state)) 2) = ''/v1/v1/users''
   \<and> route_path (objs (the (include_router ex_app ex_router ''/v1'' [] twice_state)) 2)
       \<noteq> ''/v1'' @ route_path (objs twice_state 2)"
  by (simp add: include_router_result ex_app_def ex_router_def twice_state_def ex_objs_def
      objs_included prefixed_def)

text \<open>
  C3, amended. When the router's list is not the application's own list,
  \<^verbatim>\<open>include_router\<close> returns. Whenever it returns, the application's list is the list
  before followed by the entries of the router's list in their order; an \<^verbatim>\<open>APIRoute\<close>
  that the router's list holds \<open>k\<close> times has the prefix \<open>k\<close> times in front of its
  previous path, and so one that it holds once has the path \<open>prefix @ previous path\<close>.
\<close>

theorem include_router_appends_prefixed:
  "(router_routes router \<noteq> routes self \<longrightarrow> include_router self router prefix kwargs s \<noteq> None)
   \<and> (\<forall>s'. include_router self router prefix kwargs s = Some s' \<longrightarrow>
        lsts s' (routes self) = lsts s (routes self) @ lsts s (router_routes router)
        \<and> (\<forall>a \<in> set (lsts s (router_routes router)).
             is_APIRoute (objs s a) \<longrightarrow>
               route_path (objs s' a) =
                 concat (replicate (count_list (lsts s (router_routes router)) a) prefix)
                   @ route_path (objs s a))
        \<and> (\<forall>a \<in> set (lsts s (router_routes router)).
             is_APIRoute (objs s a) \<and> count_list (lsts s (router_routes router)) a = 1 \<longrightarrow>
               route_path (objs s' a) = prefix @ route_path (objs s a)))"
proof (intro conjI allI impI)
  assume "router_routes router \<noteq> routes self"
  then show "include_router self router prefix kwargs s \<noteq> None"
    by (simp add: include_router_returns)
next
  fix s'
  assume "include_router self router prefix kwargs s = Some s'"
  then have s': "s' = included self prefix (lsts s (router_routes router)) s"
    by (rule include_router_Some)
  show "lsts s' (routes self) = lsts s (routes self) @ lsts s (router_routes router)"
    by (simp add: s' lsts_included)
  show "\<forall>a \<in> set (lsts s (router_routes router)).
          is_APIRoute (objs s a) \<longrightarrow>
            route_path (objs s' a) =
              concat (replicate (count_list (lsts s (router_routes router)) a) prefix)
                @ route_path (objs s a)"
    by (simp add: s' objs_included route_path_prefixed)
  show "\<forall>a \<in> set (lsts s (router_routes router)).
          is_APIRoute (objs s a) \<and> count_list (lsts s (router_routes router)) a = 1 \<longrightarrow>
            route_path (objs s' a) = prefix @ route_path (objs s a)"
    by (simp add: s' objs_included route_path_prefixed)
qed

theorem include_router_appends_prefixed_witness:
  "router_routes ex_router \<noteq> routes ex_app
   \<and> include_router ex_app ex_router ''/v1'' [] ex_state \<noteq> None
   \<and> lsts (the (include_router ex_app ex_router ''/v1'' [] ex_state)) (routes ex_app) = [0, 1, 2]
   \<and> 2 \<in> set (lsts ex_state (router_routes ex_router))
   \<and> is_APIRoute (objs ex_state 2)
   \<and> count_list (lsts ex_state (router_routes ex_router)) 2 = 1
   \<and> route_path (objs (the (include_router ex_app ex_router ''/v1'' [] ex_state)) 2) = ''/v1/users''"
proof -
  have ne: "router_routes ex_router \<noteq> routes ex_app"
    by (simp add: ex_router_def ex_app_def)
  note inst = include_router_appends_prefixed[of ex_router ex_app "''/v1''" "[]" ex_state]
  from inst ne obtain s' where s': "include_router ex_app ex_router ''/v1'' [] ex_state = Some s'"
    by blast
  have facts: "2 \<in> set (lsts ex_state (router_routes ex_router))" "is_APIRoute (objs ex_state 2)"
    "count_list (lsts ex_state (router_routes ex_router)) 2 = 1"
    by (simp_all add: ex_router_def ex_state_def ex_objs_def)
  from inst s' have l: "lsts s' (routes ex_app) = lsts ex_state (routes ex_app) @ lsts ex_state (router_routes ex_router)"
    and p: "\<forall>a \<in> set (lsts ex_state (router_routes ex_router)).
             is_APIRoute (objs ex_state a) \<and> count_list (lsts ex_state (router_routes ex_router)) a = 1 \<longrightarrow>
               route_path (objs s' a) = ''/v1'' @ route_path (objs ex_state a)"
    by blast+
  from p facts have "route_path (objs s' 2) = ''/v1'' @ route_path (objs ex_state 2)"
    by blast
  with l s' ne facts show ?thesis
    by (simp add: ex_router_def ex_app_def ex_state_def ex_objs_def)
qed

text \<open>
  C9. When the router's list is not the application's own list, \<^verbatim>\<open>include_router\<close>
  returns. Whenever it returns, the entries of the router's list have been appended to
  the application's list, and every route object among them that is not an \<^verbatim>\<open>APIRoute\<close>
  is the object it was before: nothing of it, and so not its path, has changed, whatever
  the prefix.
\<close>

theorem include_router_keeps_other_routes:
  "(router_routes router \<noteq> routes self \<longrightarrow> include_router self router prefix kwargs s \<noteq> None)
   \<and> (\<forall>s'. include_router self router prefix kwargs s = Some s' \<longrightarrow>
        lsts s' (routes self) = lsts s (routes self) @ lsts s (router_routes router)
        \<and> (\<forall>a \<in> set (lsts s (router_routes router)).
             \<not> is_APIRoute (objs s a) \<longrightarrow> objs s' a = objs s a))"
proof (intro conjI allI impI)
  assume "router_routes router \<noteq> routes self"
  then show "include_router self router prefix kwargs s \<noteq> None"
    by (simp add: include_router_returns)
next
  fix s'
  assume "include_router self router prefix kwargs s = Some s'"
  then have s': "s' = included self prefix (lsts s (router_routes router)) s"
    by (rule include_router_Some)
  show "lsts s' (routes self) = lsts s (routes self) @ lsts s (router_routes router)"
    by (simp add: s' lsts_included)
  show "\<forall>a \<in> set (lsts s (router_routes router)).
          \<not> is_APIRoute (objs s a) \<longrightarrow> objs s' a = objs s a"
    by (simp add: s' objs_included prefixed_other)
qed

theorem include_router_keeps_other_routes_witness:
  "router_routes ex_router \<noteq> routes ex_app
   \<and> include_router ex_app ex_router ''/v1'' [] ex_state \<noteq> None
   \<and> 1 \<in> set (lsts ex_state (router_routes ex_router))
   \<and> \<not> is_APIRoute (objs ex_state 1)
   \<and> lsts (the (include_router ex_app ex_router ''/v1'' [] ex_state)) (routes ex_app) = [0, 1, 2]
   \<and> objs (the (include_router ex_app ex_router ''/v1'' [] ex_state)) 1 = BaseRoute ''/static'' 2"
proof -
  have ne: "router_routes ex_router \<noteq> routes ex_app"
    by (simp add: ex_router_def ex_app_def)
  have facts: "1 \<in> set (lsts ex_state (router_routes ex_router))"
    "\<not> is_APIRoute (objs ex_state 1)"
    by (simp_all add: ex_router_def ex_state_def ex_objs_def)
  note inst = include_router_keeps_other_routes[of ex_router ex_app "''/v1''" "[]" ex_state]
  from inst ne obtain s' where s': "include_router ex_app ex_router ''/v1'' [] ex_state = Some s'"
    by blast
  from inst s' have l: "lsts s' (routes ex_app) =
      lsts ex_state (routes ex_app) @ lsts ex_state (router_routes ex_router)"
    and p: "\<forall>a \<in> set (lsts ex_state (router_routes ex_router)).
             \<not> is_APIRoute (objs ex_state a) \<longrightarrow> objs s' a = objs ex_state a"
    by blast+
  from p facts have "objs s' 1 = objs ex_state 1"
    by blast
  with l s' ne facts show ?thesis
    by (simp add: ex_router_def ex_app_def ex_state_def ex_objs_def)
qed

subsection \<open>\<^verbatim>\<open>include_router\<close>: the router's own objects\<close>

text \<open>
  C8, as the specification states it, fails for the same reason as C3: an \<^verbatim>\<open>APIRoute\<close>
  object that the router's list holds more than once is assigned to once for each entry.
  With the object at address 2 at the first and third place of the router's list and the
  prefix \<^verbatim>\<open>/api\<close>, the router still holds the object after the call, and its path is
  \<^verbatim>\<open>/api/api/users\<close>, not the prefix followed by the old path \<^verbatim>\<open>/users\<close>.
\<close>

theorem include_router_shared_objects_counterexample:
  "include_router ex_app ex_router ''/api'' [] repeat_state \<noteq> None
   \<and> 2 \<in> set (lsts (the (include_router ex_app ex_router ''/api'' [] repeat_state))
                (router_routes ex_router))
   \<and> is_APIRoute (objs repeat_state 2)
   \<and> route_path (objs repeat_state 2) = ''/users''
   \<and> route_path (objs (the (include_router ex_app ex_router ''/api'' [] repeat_state)) 2) =
       ''/api/api/users''
   \<and> route_path (objs (the (include_router ex_app ex_router ''/api'' [] repeat_state)) 2)
       \<noteq> ''/api'' @ route_path (objs repeat_state 2)"
  by (simp add: include_router_result ex_app_def ex_router_def repeat_state_def ex_objs_def
      objs_included lsts_included prefixed_def)

text \<open>
  C8, amended. Whenever \<^verbatim>\<open>include_router\<close> returns (it does when the router's list is
  not the application's own list), the router's list holds the entries it held before,
  the entries appended to the application's list are those same addresses, and every
  \<^verbatim>\<open>APIRoute\<close> that the router's list holds exactly once is the object it was with its
  path assigned \<open>prefix @ old path\<close>: the router's objects themselves are changed, not
  copies. A second call with the same router and prefix changes them again: whenever it
  returns, the path of such an object is \<open>prefix @ prefix @ original path\<close>.
\<close>

theorem include_router_shares_objects:
  "(router_routes router \<noteq> routes self \<longrightarrow> include_router self router prefix kwargs s \<noteq> None)
   \<and> (\<forall>s'. include_router self router prefix kwargs s = Some s' \<longrightarrow>
        lsts s' (router_routes router) = lsts s (router_routes router)
        \<and> lsts s' (routes self) = lsts s (routes self) @ lsts s (router_routes router)
        \<and> (\<forall>a \<in> set (lsts s (router_routes router)).
             is_APIRoute (objs s a) \<and> count_list (lsts s (router_routes router)) a = 1 \<longrightarrow>
               objs s' a = set_path (prefix @ route_path (objs s a)) (objs s a))
        \<and> (router_routes router \<noteq> routes self \<longrightarrow>
             include_router self router prefix kwargs s' \<noteq> None)
        \<and> (\<forall>s''. include_router self router prefix kwargs s' = Some s'' \<longrightarrow>
             (\<forall>a \<in> set (lsts s (router_routes router)).
                is_APIRoute (objs s a) \<and> count_list (lsts s (router_routes router)) a = 1 \<longrightarrow>
                  route_path (objs s'' a) = prefix @ prefix @ route_path (objs s a))))"
proof (intro conjI allI impI)
  assume "router_routes router \<noteq> routes self"
  then show "include_router self router prefix kwargs s \<noteq> None"
    by (simp add: include_router_returns)
next
  fix s'
  assume "include_router self router prefix kwargs s = Some s'"
  then have s': "s' = included self prefix (lsts s (router_routes router)) s"
    and ok: "router_routes router = routes self \<longrightarrow> lsts s (routes self) = []"
    by (simp_all add: include_router_result split: if_splits)
  show same: "lsts s' (router_routes router) = lsts s (router_routes router)"
    using ok by (simp add: s' lsts_included)
  show "lsts s' (routes self) = lsts s (routes self) @ lsts s (router_routes router)"
    by (simp add: s' lsts_included)
  show "\<forall>a \<in> set (lsts s (router_routes router)).
          is_APIRoute (objs s a) \<and> count_list (lsts s (router_routes router)) a = 1 \<longrightarrow>
            objs s' a = set_path (prefix @ route_path (objs s a)) (objs s a)"
    by (simp add: s' objs_included prefixed_once)
  {
    assume "router_routes router \<noteq> routes self"
    then show "include_router self router prefix kwargs s' \<noteq> None"
      by (simp add: include_router_returns)
  }
  fix s''
  assume "include_router self router prefix kwargs s' = Some s''"
  then have "s'' = included self prefix (lsts s' (router_routes router)) s'"
    by (rule include_router_Some)
  then have s'': "s'' = included self prefix (lsts s (router_routes router)) s'"
    by (simp only: same)
  show "\<forall>a \<in> set (lsts s (router_routes router)).
          is_APIRoute (objs s a) \<and> count_list (lsts s (router_routes router)) a = 1 \<longrightarrow>
            route_path (objs s'' a) = prefix @ prefix @ route_path (objs s a)"
    by (simp add: s'' s' objs_included route_path_prefixed_twice)
qed

theorem include_router_shares_objects_witness:
  "router_routes ex_router \<noteq> routes ex_app
   \<and> include_router ex_app ex_router ''/v1'' [] ex_state \<noteq> None
   \<and> include_router ex_app ex_router ''/v1'' []
        (the (include_router ex_app ex_router ''/v1'' [] ex_state)) \<noteq> None
   \<and> 2 \<in> set (lsts ex_state (router_routes ex_router))
   \<and> is_APIRoute (objs ex_state 2)
   \<and> count_list (lsts ex_state (router_routes ex_router)) 2 = 1
   \<and> lsts (the (include_router ex_app ex_router ''/v1'' [] ex_state)) (router_routes ex_router) = [1, 2]
   \<and> lsts (the (include_router ex_app ex_router ''/v1'' [] ex_state)) (routes ex_app) = [0, 1, 2]
   \<and> objs (the (include_router ex_app ex_router ''/v1'' [] ex_state)) 2 =
       APIRoute ''/v1/users'' 3 [''POST''] 0 []
   \<and> route_path (objs (the (include_router ex_app ex_router ''/v1'' []
        (the (include_router ex_app ex_router ''/v1'' [] ex_state)))) 2) = ''/v1/v1/users''"
proof -
  have ne: "router_routes ex_router \<noteq> routes ex_app"
    by (simp add: ex_router_def ex_app_def)
  have facts: "2 \<in> set (lsts ex_state (router_routes ex_router))" "is_APIRoute (objs ex_state 2)"
    "count_list (lsts ex_state (router_routes ex_router)) 2 = 1"
    by (simp_all add: ex_router_def ex_state_def ex_objs_def)
  note inst = include_router_shares_objects[of ex_router ex_app "''/v1''" "[]" ex_state]
  from inst ne obtain s' where s': "include_router ex_app ex_router ''/v1'' [] ex_state = Some s'"
    by blast
  from inst s' have r: "lsts s' (router_routes ex_router) = lsts ex_state (router_routes ex_router)"
    and l: "lsts s' (routes ex_app) =
      lsts ex_state (routes ex_app) @ lsts ex_state (router_routes ex_router)"
    and p: "\<forall>a \<in> set (lsts ex_state (router_routes ex_router)).
             is_APIRoute (objs ex_state a) \<and> count_list (lsts ex_state (router_routes ex_router)) a = 1 \<longrightarrow>
               objs s' a = set_path (''/v1'' @ route_path (objs ex_state a)) (objs ex_state a)"
    and again: "router_routes ex_router \<noteq> routes ex_app \<longrightarrow>
             include_router ex_app ex_router ''/v1'' [] s' \<noteq> None"
    and q: "\<forall>s''. include_router ex_app ex_router ''/v1'' [] s' = Some s'' \<longrightarrow>
             (\<forall>a \<in> set (lsts ex_state (router_routes ex_router)).
                is_APIRoute (objs ex_state a) \<and> count_list (lsts ex_state (router_routes ex_router)) a = 1 \<longrightarrow>
                  route_path (objs s'' a) = ''/v1'' @ ''/v1'' @ route_path (objs ex_state a))"
    by blast+
  from again ne obtain s'' where s'': "include_router ex_app ex_router ''/v1'' [] s' = Some s''"
    by blast
  from p facts have one: "objs s' 2 = set_path (''/v1'' @ route_path (objs ex_state 2)) (objs ex_state 2)"
    by blast
  from q s'' facts have two: "route_path (objs s'' 2) = ''/v1'' @ ''/v1'' @ route_path (objs ex_state 2)"
    by blast
  from r l one two s' s'' ne facts show ?thesis
    by (simp add: ex_router_def ex_app_def ex_state_def ex_objs_def)
qed

subsection \<open>The list of routes only grows\<close>

text \<open>
  C5. The list \<^verbatim>\<open>self.routes\<close> before \<^verbatim>\<open>add_api_route\<close> is an initial segment of the
  list after it. \<^verbatim>\<open>include_router\<close> returns when the router's list is not the
  application's own list, and whenever it returns, the list \<^verbatim>\<open>self.routes\<close> before the
  call is an initial segment of the list after it. So no entry is removed, replaced or
  moved. (The entries are references; \<^verbatim>\<open>include_router\<close> may assign to the path of an
  object that an entry refers to.)
\<close>

theorem routes_only_grow:
  "(\<exists>ys. lsts (add_api_route self path endpoint methods response_model kwargs s) (routes self) =
          lsts s (routes self) @ ys)
   \<and> (router_routes router \<noteq> routes self \<longrightarrow>
        include_router self router prefix kwargs' s \<noteq> None)
   \<and> (\<forall>s'. include_router self router prefix kwargs' s = Some s' \<longrightarrow>
         (\<exists>ys. lsts s' (routes self) = lsts s (routes self) @ ys))"
proof (intro conjI allI impI)
  show "\<exists>ys. lsts (add_api_route self path endpoint methods response_model kwargs s)
          (routes self) = lsts s (routes self) @ ys"
    by (simp add: add_api_route_def Let_def)
next
  assume "router_routes router \<noteq> routes self"
  then show "include_router self router prefix kwargs' s \<noteq> None"
    by (simp add: include_router_returns)
next
  fix s'
  assume "include_router self router prefix kwargs' s = Some s'"
  then have "s' = included self prefix (lsts s (router_routes router)) s"
    by (rule include_router_Some)
  then show "\<exists>ys. lsts s' (routes self) = lsts s (routes self) @ ys"
    by (simp add: lsts_included)
qed

theorem routes_only_grow_witness:
  "take 1 (lsts (add_api_route ex_app ''/new'' 7 None 0 [] ex_state) (routes ex_app)) =
     lsts ex_state (routes ex_app)
   \<and> router_routes ex_router \<noteq> routes ex_app
   \<and> include_router ex_app ex_router ''/v1'' [] ex_state \<noteq> None
   \<and> take 1 (lsts (the (include_router ex_app ex_router ''/v1'' [] ex_state)) (routes ex_app)) =
       lsts ex_state (routes ex_app)"
proof -
  have ne: "router_routes ex_router \<noteq> routes ex_app"
    by (simp add: ex_router_def ex_app_def)
  have len: "length (lsts ex_state (routes ex_app)) = 1"
    by (simp add: ex_state_def ex_app_def)
  note inst = routes_only_grow[of ex_app "''/new''" 7 None 0 "[]" ex_state ex_router "''/v1''" "[]"]
  from inst ne obtain s' where s': "include_router ex_app ex_router ''/v1'' [] ex_state = Some s'"
    by blast
  from inst s' obtain ys where "lsts s' (routes ex_app) = lsts ex_state (routes ex_app) @ ys"
    by blast
  moreover from inst obtain zs where
    "lsts (add_api_route ex_app ''/new'' 7 None 0 [] ex_state) (routes ex_app) =
       lsts ex_state (routes ex_app) @ zs"
    by blast
  ultimately show ?thesis
    using ne s' len by simp
qed

subsection \<open>The methods of a new route\<close>

text \<open>
  C7. The route object that \<^verbatim>\<open>add_api_route\<close> appends has the methods \<^verbatim>\<open>["GET"]\<close>
  when the argument \<^verbatim>\<open>methods\<close> is \<^verbatim>\<open>None\<close> or the empty list, and the given list
  when that is not empty; its path, endpoint and response model (and the remaining
  keyword arguments) are the arguments of the call.
\<close>

theorem add_api_route_methods:
  "last_route self (add_api_route self path endpoint None response_model kwargs s) =
     APIRoute path endpoint [''GET''] response_model kwargs
   \<and> last_route self (add_api_route self path endpoint (Some []) response_model kwargs s) =
     APIRoute path endpoint [''GET''] response_model kwargs
   \<and> last_route self (add_api_route self path endpoint (Some (m # ms)) response_model kwargs s) =
     APIRoute path endpoint (m # ms) response_model kwargs"
  by (simp add: last_route_def add_api_route_def methods_or_def Let_def)

subsection \<open>The constructor\<close>




end
